theory Spec2Isabelle
  imports Main
begin

section \<open>Branch references\<close>

text \<open>
  Python's \<^verbatim>\<open>s.startswith(p)\<close>: \<open>p\<close> is an initial segment of \<open>s\<close>.
\<close>

fun startswith :: "string \<Rightarrow> string \<Rightarrow> bool" where
  "startswith s [] = True"
| "startswith [] (p # ps) = False"
| "startswith (c # cs) (p # ps) = (c = p \<and> startswith cs ps)"

text \<open>
  \<^verbatim>\<open>
  def _canonicalize_branch_name(branch_name: str) -> str:
      if not branch_name.startswith("refs/heads/"):
          return "refs/heads/" + branch_name
      return branch_name
  \<close>
\<close>

definition canonicalize_branch_name :: "string \<Rightarrow> string" where
  "canonicalize_branch_name branch_name =
     (if \<not> startswith branch_name ''refs/heads/''
      then ''refs/heads/'' @ branch_name
      else branch_name)"

section \<open>Values and exceptions\<close>

text \<open>
  The values a decoded response can hold (what Python's JSON decoder produces): \<open>None\<close>,
  booleans, numbers, strings, lists and dicts. A dict is kept as the list of its items in
  insertion order. A string is the list of its characters. The numbers are given by
  integers: no operation below looks at the value of a number, and \<^verbatim>\<open>len\<close> raises the same
  \<^verbatim>\<open>TypeError\<close> on every number.
\<close>

datatype json =
    JNull
  | JBool bool
  | JNum int
  | JStr string
  | JArr "json list"
  | JObj "(string \<times> json) list"

text \<open>
  Modelled from the spec: the module \<^verbatim>\<open>simple_ado.exceptions\<close> is not among the sources.
  Its \<^verbatim>\<open>ADOException\<close> covers the two kinds of API failure of the error taxonomy, the
  Http-failure and the Decode-failure; each carries a message.
\<close>

datatype ado_exception = HttpFailure string | DecodeFailure string

text \<open>
  A raised Python exception: an \<^verbatim>\<open>ADOException\<close>, the \<^verbatim>\<open>TypeError\<close> of the built-ins,
  or an exception of any other class (given by its name).
\<close>

datatype py_exception =
    ADOException ado_exception
  | TypeError
  | OtherException string

text \<open>What \<^verbatim>\<open>except ADOException\<close> tests.\<close>

fun is_ADOException :: "py_exception \<Rightarrow> bool" where
  "is_ADOException (ADOException _) = True"
| "is_ADOException _ = False"

text \<open>
  \<^verbatim>\<open>len(x)\<close>: defined on strings, lists and dicts; a \<^verbatim>\<open>TypeError\<close> on the other values.
\<close>

fun py_len :: "json \<Rightarrow> py_exception + nat" where
  "py_len (JStr s) = Inr (length s)"
| "py_len (JArr xs) = Inr (length xs)"
| "py_len (JObj kvs) = Inr (length kvs)"
| "py_len _ = Inl TypeError"

text \<open>
  The elements \<^verbatim>\<open>list.extend(x)\<close> appends: the elements of a list, the keys of a dict, the
  one-character strings of a string. It is only reached after \<^verbatim>\<open>len(x)\<close> has succeeded,
  so the values that are not iterable never get here (they give no element).
\<close>

fun py_iter :: "json \<Rightarrow> json list" where
  "py_iter (JStr s) = map (\<lambda>c. JStr [c]) s"
| "py_iter (JArr xs) = xs"
| "py_iter (JObj kvs) = map (\<lambda>kv. JStr (fst kv)) kvs"
| "py_iter _ = []"

text \<open>\<^verbatim>\<open>str(n)\<close> of an integer, as an f-string formats it: decimal, with a sign if negative.\<close>

fun str_nat :: "nat \<Rightarrow> string" where
  "str_nat n =
     (if n < 10 then [''0123456789'' ! n]
      else str_nat (n div 10) @ [''0123456789'' ! (n mod 10)])"

declare str_nat.simps [simp del]

definition py_str :: "int \<Rightarrow> string" where
  "py_str i = (if i < 0 then CHR ''-'' # str_nat (nat (- i)) else str_nat (nat i))"

text \<open>
  \<^verbatim>\<open>d[k] = v\<close> on a dict: the value of an existing key is replaced in place, a new key goes
  to the end.
\<close>

fun dict_set :: "(string \<times> json) list \<Rightarrow> string \<Rightarrow> json \<Rightarrow> (string \<times> json) list" where
  "dict_set [] k v = [(k, v)]"
| "dict_set ((k', v') # kvs) k v =
     (if k' = k then (k, v) # kvs else (k', v') # dict_set kvs k v)"

section \<open>The collaborators of the facade\<close>

text \<open>
  Modelled from the spec: \<^verbatim>\<open>simple_ado.context\<close> is not among the sources. The context is
  the immutable bundle of username, repository id and status context.
\<close>

record ado_context =
  username :: string
  repository_id :: string
  status_context :: string

text \<open>
  Modelled from the spec: \<^verbatim>\<open>simple_ado.http_client\<close> is not among the sources, so the HTTP
  client is a parameter. \<open>'s\<close> is the state of the remote service and of the connection to
  it, \<open>'r\<close> the raw response. \<^verbatim>\<open>base_url()\<close> with its default flags is a string fixed by the
  client's configuration; \<^verbatim>\<open>get\<close> and \<^verbatim>\<open>post\<close> perform a round trip and either raise or
  return the raw response; \<^verbatim>\<open>decode_response\<close> and \<^verbatim>\<open>extract_value\<close> are functions of
  their argument that either raise or return a value.
\<close>

record ('s, 'r) ado_http_client =
  base_url :: string
  get :: "string \<Rightarrow> 's \<Rightarrow> (py_exception + 'r) \<times> 's"
  post :: "string \<Rightarrow> json \<Rightarrow> 's \<Rightarrow> (py_exception + 'r) \<times> 's"
  decode_response :: "'r \<Rightarrow> py_exception + json"
  extract_value :: "json \<Rightarrow> py_exception + json"

text \<open>The fields of \<^verbatim>\<open>ADOClient\<close> that its methods read (\<^verbatim>\<open>self._context\<close>, \<^verbatim>\<open>self.http_client\<close>).\<close>

record ('s, 'r) ado_client =
  p_context :: ado_context
  http_client :: "('s, 'r) ado_http_client"

section \<open>The facade's operations\<close>

text \<open>
  \<^verbatim>\<open>
  def verify_access(self) -> bool:
      request_url = f"{self.http_client.base_url()}/git/repositories?api-version=1.0"
      try:
          response = self.http_client.get(request_url)
          response_data = self.http_client.decode_response(response)
          self.http_client.extract_value(response_data)
      except ADOException:
          return False
      return True
  \<close>
  The handler: an \<^verbatim>\<open>ADOException\<close> becomes \<open>False\<close>, any other exception goes on to the
  caller.
\<close>

definition except_ADOException :: "py_exception \<Rightarrow> py_exception + bool" where
  "except_ADOException e = (if is_ADOException e then Inr False else Inl e)"

definition verify_access :: "('s, 'r) ado_client \<Rightarrow> 's \<Rightarrow> (py_exception + bool) \<times> 's" where
  "verify_access self s =
     (let request_url = base_url (http_client self) @ ''/git/repositories?api-version=1.0''
      in case get (http_client self) request_url s of
           (Inl e, s') \<Rightarrow> (except_ADOException e, s')
         | (Inr response, s') \<Rightarrow>
             (case decode_response (http_client self) response of
                Inl e \<Rightarrow> (except_ADOException e, s')
              | Inr response_data \<Rightarrow>
                  (case extract_value (http_client self) response_data of
                     Inl e \<Rightarrow> (except_ADOException e, s')
                   | Inr _ \<Rightarrow> (Inr True, s'))))"

text \<open>
  A keyword argument at a call site is either left out or passed; a parameter that is left
  out takes its default.
\<close>

datatype 'a kwarg = Omitted | Passed 'a

fun bind_kwarg :: "'a \<Rightarrow> 'a kwarg \<Rightarrow> 'a" where
  "bind_kwarg d Omitted = d"
| "bind_kwarg d (Passed v) = v"

text \<open>
  \<^verbatim>\<open>
  def create_pull_request(self, source_branch, target_branch, *,
          title: Optional[str] = None, description: Optional[str] = None,
          reviewer_ids: Optional[List[str]] = None) -> ADOResponse:
      request_url = (
          f"{self.http_client.base_url()}/git/repositories/{self._context.repository_id}"
      )
      request_url += "/pullRequests?api-version=5.1"
      body = {
          "sourceRefName": _canonicalize_branch_name(source_branch),
          "targetRefName": _canonicalize_branch_name(target_branch),
      }
      if title is not None:
          body["title"] = title
      if description is not None:
          body["description"] = description
      if reviewer_ids is not None and len(reviewer_ids) > 0:
          body["reviewers"] = [{"id": reviewer_id} for reviewer_id in reviewer_ids]
      response = self.http_client.post(request_url, json_data=body)
      return self.http_client.decode_response(response)
  \<close>
  \<open>create_pull_request_body\<close> is the dict built between the URL and the post.
\<close>

definition create_pull_request_body ::
  "string \<Rightarrow> string \<Rightarrow> string option \<Rightarrow> string option \<Rightarrow> string list option
     \<Rightarrow> (string \<times> json) list" where
  "create_pull_request_body source_branch target_branch title description reviewer_ids =
     (let body = [(''sourceRefName'', JStr (canonicalize_branch_name source_branch)),
                  (''targetRefName'', JStr (canonicalize_branch_name target_branch))];
          body = (case title of None \<Rightarrow> body | Some t \<Rightarrow> dict_set body ''title'' (JStr t));
          body = (case description of None \<Rightarrow> body
                  | Some d \<Rightarrow> dict_set body ''description'' (JStr d));
          body = (case reviewer_ids of None \<Rightarrow> body
                  | Some ids \<Rightarrow>
                      if length ids > 0
                      then dict_set body ''reviewers''
                             (JArr (map (\<lambda>reviewer_id. JObj [(''id'', JStr reviewer_id)]) ids))
                      else body)
      in body)"

definition create_pull_request ::
  "('s, 'r) ado_client \<Rightarrow> string \<Rightarrow> string \<Rightarrow> string option kwarg \<Rightarrow> string option kwarg
     \<Rightarrow> string list option kwarg \<Rightarrow> 's \<Rightarrow> (py_exception + json) \<times> 's" where
  "create_pull_request self source_branch target_branch title_arg description_arg
       reviewer_ids_arg s =
     (let title = bind_kwarg None title_arg;
          description = bind_kwarg None description_arg;
          reviewer_ids = bind_kwarg None reviewer_ids_arg;
          request_url = base_url (http_client self) @ ''/git/repositories/''
                          @ repository_id (p_context self);
          request_url = request_url @ ''/pullRequests?api-version=5.1'';
          body = create_pull_request_body source_branch target_branch title description
                   reviewer_ids
      in case post (http_client self) request_url (JObj body) s of
           (Inl e, s') \<Rightarrow> (Inl e, s')
         | (Inr response, s') \<Rightarrow> (decode_response (http_client self) response, s'))"

text \<open>
  \<^verbatim>\<open>
  def list_all_pull_requests(self, *, branch_name: Optional[str] = None) -> ADOResponse:
      offset = 0
      all_prs: List[Any] = []
      while True:
          request_url = f"{self.http_client.base_url()}/git/repositories/{self._context.repository_id}/pullRequests?"
          request_url += f"$top=100&$skip={offset}"
          if branch_name is not None:
              request_url += f"&sourceRefName={_canonicalize_branch_name(branch_name)}"
          request_url += "&api-version=3.0-preview"
          response = self.http_client.get(request_url)
          response_data = self.http_client.decode_response(response)
          extracted = self.http_client.extract_value(response_data)
          if len(extracted) == 0:
              break
          all_prs.extend(extracted)
          offset += 100
      return all_prs
  \<close>
  \<open>list_request_url\<close> is the URL one iteration builds. The loop may run forever, so it is
  a partial function: \<open>None\<close> is a run that never returns, \<open>Some (Inl e, s)\<close> a run ended by
  the exception \<open>e\<close>, \<open>Some (Inr prs, s)\<close> a run that returned \<open>prs\<close>.
\<close>

definition list_request_url :: "('s, 'r) ado_client \<Rightarrow> string option \<Rightarrow> int \<Rightarrow> string" where
  "list_request_url self branch_name offset =
     (let request_url = base_url (http_client self) @ ''/git/repositories/''
                          @ repository_id (p_context self) @ ''/pullRequests?'';
          request_url = request_url @ ''$top=100&$skip='' @ py_str offset;
          request_url = (case branch_name of
                           None \<Rightarrow> request_url
                         | Some b \<Rightarrow>
                             request_url @ ''&sourceRefName='' @ canonicalize_branch_name b);
          request_url = request_url @ ''&api-version=3.0-preview''
      in request_url)"

partial_function (option) list_all_pull_requests_loop ::
  "('s, 'r) ado_client \<Rightarrow> string option \<Rightarrow> int \<Rightarrow> json list \<Rightarrow> 's
     \<Rightarrow> ((py_exception + json list) \<times> 's) option" where
  "list_all_pull_requests_loop self branch_name offset all_prs s =
     (case get (http_client self) (list_request_url self branch_name offset) s of
        (Inl e, s') \<Rightarrow> Some (Inl e, s')
      | (Inr response, s') \<Rightarrow>
          (case decode_response (http_client self) response of
             Inl e \<Rightarrow> Some (Inl e, s')
           | Inr response_data \<Rightarrow>
               (case extract_value (http_client self) response_data of
                  Inl e \<Rightarrow> Some (Inl e, s')
                | Inr extracted \<Rightarrow>
                    (case py_len extracted of
                       Inl e \<Rightarrow> Some (Inl e, s')
                     | Inr n \<Rightarrow>
                         if n = 0 then Some (Inr all_prs, s')
                         else list_all_pull_requests_loop self branch_name (offset + 100)
                                (all_prs @ py_iter extracted) s'))))"

declare list_all_pull_requests_loop.simps [code]

definition list_all_pull_requests ::
  "('s, 'r) ado_client \<Rightarrow> string option kwarg \<Rightarrow> 's
     \<Rightarrow> ((py_exception + json list) \<times> 's) option" where
  "list_all_pull_requests self branch_name_arg s =
     list_all_pull_requests_loop self (bind_kwarg None branch_name_arg) 0 [] s"

section \<open>The pages of a run\<close>

text \<open>
  Vocabulary for the statements about the listing loop. \<open>fetch_page\<close> is what one
  iteration obtains: the extracted value of the page requested at \<open>offset\<close>, or the
  exception that the get, the decoding or the extraction raised, with the state the
  request leaves. \<open>page \<dots> k\<close> and \<open>state_after \<dots> k\<close> follow the loop from \<open>offset\<close> and
  \<open>s\<close>, adding 100 to the offset each time: the outcome of request number \<open>k\<close> (from 0),
  and the state once \<open>k\<close> requests have been made.
\<close>

definition fetch_page ::
  "('s, 'r) ado_client \<Rightarrow> string option \<Rightarrow> int \<Rightarrow> 's \<Rightarrow> (py_exception + json) \<times> 's" where
  "fetch_page self branch_name offset s =
     (case get (http_client self) (list_request_url self branch_name offset) s of
        (Inl e, s') \<Rightarrow> (Inl e, s')
      | (Inr response, s') \<Rightarrow>
          (case decode_response (http_client self) response of
             Inl e \<Rightarrow> (Inl e, s')
           | Inr response_data \<Rightarrow> (extract_value (http_client self) response_data, s')))"

primrec state_after ::
  "('s, 'r) ado_client \<Rightarrow> string option \<Rightarrow> int \<Rightarrow> 's \<Rightarrow> nat \<Rightarrow> 's" where
  "state_after self branch_name offset s 0 = s"
| "state_after self branch_name offset s (Suc k) =
     state_after self branch_name (offset + 100)
       (snd (fetch_page self branch_name offset s)) k"

primrec page ::
  "('s, 'r) ado_client \<Rightarrow> string option \<Rightarrow> int \<Rightarrow> 's \<Rightarrow> nat \<Rightarrow> py_exception + json" where
  "page self branch_name offset s 0 = fst (fetch_page self branch_name offset s)"
| "page self branch_name offset s (Suc k) =
     page self branch_name (offset + 100) (snd (fetch_page self branch_name offset s)) k"

text \<open>
  A page is non-empty when it was obtained and \<^verbatim>\<open>len\<close> of its extracted value is a number
  other than 0 (the loop goes on), empty when that number is 0 (the loop breaks).
  \<open>page_items\<close> are the elements the loop appends, \<open>stop_result\<close> what the run gives when
  it ends at a page that is not non-empty, having collected \<open>all_prs\<close>.
\<close>

definition nonempty_page :: "py_exception + json \<Rightarrow> bool" where
  "nonempty_page r =
     (case r of Inl e \<Rightarrow> False
      | Inr x \<Rightarrow> (case py_len x of Inl e \<Rightarrow> False | Inr n \<Rightarrow> n \<noteq> 0))"

definition empty_page :: "py_exception + json \<Rightarrow> bool" where
  "empty_page r = (case r of Inl e \<Rightarrow> False | Inr x \<Rightarrow> py_len x = Inr 0)"

definition page_items :: "py_exception + json \<Rightarrow> json list" where
  "page_items r = (case r of Inl e \<Rightarrow> [] | Inr x \<Rightarrow> py_iter x)"

definition stop_result :: "py_exception + json \<Rightarrow> json list \<Rightarrow> py_exception + json list" where
  "stop_result r all_prs =
     (case r of Inl e \<Rightarrow> Inl e
      | Inr x \<Rightarrow> (case py_len x of Inl e \<Rightarrow> Inl e | Inr n \<Rightarrow> Inr all_prs))"

section \<open>A fake server\<close>

text \<open>
  A test double for the HTTP client. It answers request number \<open>k\<close> with \<open>script k\<close>,
  whatever the URL: the request raises, or returns a response that either makes the
  decoding raise or decodes to a body, which is also its extracted value. Its state is
  the number of requests served and the requests received, oldest first.
\<close>

datatype http_request = GET string | POST string json

datatype fake_response = Undecodable py_exception | Body json

fun fake_decode_response :: "fake_response \<Rightarrow> py_exception + json" where
  "fake_decode_response (Undecodable e) = Inl e"
| "fake_decode_response (Body j) = Inr j"

definition fake_http_client ::
  "string \<Rightarrow> (nat \<Rightarrow> py_exception + fake_response)
     \<Rightarrow> (nat \<times> http_request list, fake_response) ado_http_client" where
  "fake_http_client url script =
     \<lparr> base_url = url,
       get = (\<lambda>u (k, log). (script k, (Suc k, log @ [GET u]))),
       post = (\<lambda>u body (k, log). (script k, (Suc k, log @ [POST u body]))),
       decode_response = fake_decode_response,
       extract_value = Inr \<rparr>"

definition fake_client ::
  "ado_context \<Rightarrow> string \<Rightarrow> (nat \<Rightarrow> py_exception + fake_response)
     \<Rightarrow> (nat \<times> http_request list, fake_response) ado_client" where
  "fake_client ctx url script = \<lparr> p_context = ctx, http_client = fake_http_client url script \<rparr>"

fun served :: "py_exception + fake_response \<Rightarrow> py_exception + json" where
  "served (Inl e) = Inl e"
| "served (Inr r) = fake_decode_response r"

section \<open>Test inputs\<close>

text \<open>A server with three non-empty pages, of 100, 100 and 37 items, and empty pages after.\<close>

definition pages_100_100_37 :: "nat \<Rightarrow> py_exception + fake_response" where
  "pages_100_100_37 k =
     Inr (Body (JArr (if k < 2 then replicate 100 (JNum (int k))
                      else if k = 2 then replicate 37 (JNum 2) else [])))"

text \<open>A context for the examples.\<close>

definition test_context :: ado_context where
  "test_context = \<lparr>username = ''u'', repository_id = ''repo'', status_context = ''c''\<rparr>"

text \<open>
  Scripts for the fake server: pages of 2, 1 and 0 items; a non-empty page for every
  request; one page and then a transport failure; one page and then a response that
  cannot be decoded.
\<close>

definition pages_2_1 :: "nat \<Rightarrow> py_exception + fake_response" where
  "pages_2_1 k =
     Inr (Body (JArr (if k = 0 then [JNum 1, JNum 2] else if k = 1 then [JNum 3] else [])))"

definition endless_pages :: "nat \<Rightarrow> py_exception + fake_response" where
  "endless_pages k = Inr (Body (JArr [JNum (int k)]))"

definition page_then_http_failure :: "nat \<Rightarrow> py_exception + fake_response" where
  "page_then_http_failure k =
     (if k = 0 then Inr (Body (JArr [JNum 7]))
      else Inl (ADOException (HttpFailure ''timed out'')))"

definition page_then_undecodable :: "nat \<Rightarrow> py_exception + fake_response" where
  "page_then_undecodable k =
     (if k = 0 then Inr (Body (JArr [JNum 7]))
      else Inr (Undecodable (ADOException (DecodeFailure ''not JSON''))))"

text \<open>
  A server that honours \<^verbatim>\<open>$skip\<close> but caps its pages: it holds a list of items and answers a
  request with at most \<open>cap\<close> of them, starting at the offset it reads from the URL (the
  digits after \<^verbatim>\<open>$skip=\<close>). Its state is the list of requests received.
\<close>

fun find_after :: "string \<Rightarrow> string \<Rightarrow> string option" where
  "find_after marker [] = (if marker = [] then Some [] else None)"
| "find_after marker (c # cs) =
     (if startswith (c # cs) marker then Some (drop (length marker) (c # cs))
      else find_after marker cs)"

definition parse_nat :: "string \<Rightarrow> nat" where
  "parse_nat s =
     foldl (\<lambda>a c. 10 * a + (of_char c - 48)) 0 (takeWhile (\<lambda>c. c \<in> set ''0123456789'') s)"

definition skip_of_url :: "string \<Rightarrow> nat" where
  "skip_of_url u = (case find_after ''$skip='' u of None \<Rightarrow> 0 | Some r \<Rightarrow> parse_nat r)"

definition capped_server ::
  "string \<Rightarrow> json list \<Rightarrow> nat \<Rightarrow> (http_request list, json) ado_http_client" where
  "capped_server url items cap =
     \<lparr> base_url = url,
       get = (\<lambda>u log. (Inr (JArr (take cap (drop (skip_of_url u) items))), log @ [GET u])),
       post = (\<lambda>u body log. (Inr JNull, log @ [POST u body])),
       decode_response = Inr,
       extract_value = Inr \<rparr>"

text \<open>The capped server with 103 items, the numbers from 0 to 102, and pages of at most 2.\<close>

definition capped_client :: "(http_request list, json) ado_client" where
  "capped_client =
     \<lparr> p_context = test_context,
       http_client = capped_server ''https://ado'' (map (\<lambda>i. JNum (int i)) [0..<103]) 2 \<rparr>"

text \<open>
  Scripts whose every request fails: with an Http-failure, with a response that cannot be
  decoded, and with an exception that is not an \<^verbatim>\<open>ADOException\<close>.
\<close>

definition http_failure_script :: "nat \<Rightarrow> py_exception + fake_response" where
  "http_failure_script k = Inl (ADOException (HttpFailure ''timed out''))"

definition undecodable_script :: "nat \<Rightarrow> py_exception + fake_response" where
  "undecodable_script k = Inr (Undecodable (ADOException (DecodeFailure ''not JSON'')))"

definition connection_error_script :: "nat \<Rightarrow> py_exception + fake_response" where
  "connection_error_script k = Inl (OtherException ''ConnectionError'')"

section \<open>Properties of branch-name canonicalization\<close>

lemma startswith_iff: "startswith s p \<longleftrightarrow> (\<exists>t. s = p @ t)"
  by (induction s p rule: startswith.induct) auto

lemma startswith_append: "startswith (p @ t) p"
  by (simp add: startswith_iff)

text \<open>
  C6. Canonicalization is idempotent: for every string, canonicalizing twice gives the
  same string as canonicalizing once.
\<close>

theorem canonicalize_idempotent:
  "canonicalize_branch_name (canonicalize_branch_name s) = canonicalize_branch_name s"
  unfolding canonicalize_branch_name_def
  using startswith_append [of "''refs/heads/''" s] by (simp del: startswith.simps)

text \<open>
  C7. \<open>main\<close> becomes \<open>refs/heads/main\<close> and \<open>refs/heads/main\<close> is left as it is; in
  general a name that does not begin with \<open>refs/heads/\<close> gets that prefix, and a name that
  already begins with it is returned unchanged.
\<close>

theorem canonicalize_round_trip:
  "canonicalize_branch_name ''main'' = ''refs/heads/main''
   \<and> canonicalize_branch_name ''refs/heads/main'' = ''refs/heads/main''
   \<and> ((\<nexists>t. s = ''refs/heads/'' @ t) \<longrightarrow>
        canonicalize_branch_name s = ''refs/heads/'' @ s)
   \<and> ((\<exists>t. s = ''refs/heads/'' @ t) \<longrightarrow> canonicalize_branch_name s = s)"
proof -
  have a: "canonicalize_branch_name ''main'' = ''refs/heads/main''"
    by (simp add: canonicalize_branch_name_def)
  have b: "canonicalize_branch_name ''refs/heads/main'' = ''refs/heads/main''"
    by (simp add: canonicalize_branch_name_def)
  have c: "(\<nexists>t. s = ''refs/heads/'' @ t) \<longrightarrow>
        canonicalize_branch_name s = ''refs/heads/'' @ s"
    unfolding canonicalize_branch_name_def startswith_iff by simp
  have d: "(\<exists>t. s = ''refs/heads/'' @ t) \<longrightarrow> canonicalize_branch_name s = s"
    unfolding canonicalize_branch_name_def startswith_iff by simp
  from a b c d show ?thesis by blast
qed

theorem canonicalize_round_trip_witness:
  "canonicalize_branch_name ''dev'' = ''refs/heads/dev''
   \<and> canonicalize_branch_name ''refs/heads/dev'' = ''refs/heads/dev''"
proof -
  have n: "\<nexists>t. ''dev'' = ''refs/heads/'' @ t" by simp
  have y: "\<exists>t. ''refs/heads/dev'' = ''refs/heads/'' @ t" by simp
  from canonicalize_round_trip [of "''dev''"] n
  have 1: "canonicalize_branch_name ''dev'' = ''refs/heads/dev''" by simp
  from canonicalize_round_trip [of "''refs/heads/dev''"] y
  have 2: "canonicalize_branch_name ''refs/heads/dev'' = ''refs/heads/dev''" by blast
  from 1 2 show ?thesis by simp
qed

section \<open>The listing loop, one page at a time\<close>

lemma loop_step:
  "list_all_pull_requests_loop self b off acc s =
     (if nonempty_page (fst (fetch_page self b off s))
      then list_all_pull_requests_loop self b (off + 100)
             (acc @ page_items (fst (fetch_page self b off s))) (snd (fetch_page self b off s))
      else Some (stop_result (fst (fetch_page self b off s)) acc, snd (fetch_page self b off s)))"
  by (subst list_all_pull_requests_loop.simps)
     (simp add: fetch_page_def nonempty_page_def page_items_def stop_result_def
           split: prod.splits sum.splits)

lemma loop_unroll:
  "(\<And>j. j < k \<Longrightarrow> nonempty_page (page self b off s j)) \<Longrightarrow>
   list_all_pull_requests_loop self b off acc s =
     list_all_pull_requests_loop self b (off + 100 * int k)
       (acc @ concat (map (\<lambda>j. page_items (page self b off s j)) [0..<k]))
       (state_after self b off s k)"
proof (induction k arbitrary: off acc s)
  case 0
  show ?case by simp
next
  case (Suc k)
  let ?s' = "snd (fetch_page self b off s)"
  let ?r = "fst (fetch_page self b off s)"
  have ne: "nonempty_page ?r" using Suc.prems [of 0] by simp
  have rest: "\<And>j. j < k \<Longrightarrow> nonempty_page (page self b (off + 100) ?s' j)"
    using Suc.prems [of "Suc _"] by simp
  have eq: "off + 100 + 100 * int k = off + 100 * int (Suc k)" by simp
  have "list_all_pull_requests_loop self b off acc s =
          list_all_pull_requests_loop self b (off + 100) (acc @ page_items ?r) ?s'"
    using ne by (subst loop_step) simp
  also have "\<dots> = list_all_pull_requests_loop self b (off + 100 + 100 * int k)
       ((acc @ page_items ?r)
          @ concat (map (\<lambda>j. page_items (page self b (off + 100) ?s' j)) [0..<k]))
       (state_after self b (off + 100) ?s' k)"
    by (rule Suc.IH [OF rest])
  finally show ?case
    unfolding eq by (simp add: map_upt_Suc del: upt_Suc of_nat_Suc)
qed

lemma loop_stops:
  assumes "\<And>j. j < k \<Longrightarrow> nonempty_page (page self b off s j)"
      and "\<not> nonempty_page (page self b off s k)"
  shows "list_all_pull_requests_loop self b off acc s =
     Some (stop_result (page self b off s k)
             (acc @ concat (map (\<lambda>j. page_items (page self b off s j)) [0..<k])),
           state_after self b off s (Suc k))"
  using assms
proof (induction k arbitrary: off acc s)
  case 0
  then show ?case by (subst loop_step) simp
next
  case (Suc k)
  let ?s' = "snd (fetch_page self b off s)"
  let ?r = "fst (fetch_page self b off s)"
  have ne: "nonempty_page ?r" using Suc.prems(1) [of 0] by simp
  have rest: "\<And>j. j < k \<Longrightarrow> nonempty_page (page self b (off + 100) ?s' j)"
    using Suc.prems(1) [of "Suc _"] by simp
  have last: "\<not> nonempty_page (page self b (off + 100) ?s' k)"
    using Suc.prems(2) by simp
  have "list_all_pull_requests_loop self b off acc s =
          list_all_pull_requests_loop self b (off + 100) (acc @ page_items ?r) ?s'"
    using ne by (subst loop_step) simp
  also note Suc.IH [OF rest last]
  finally show ?case
    by (simp add: map_upt_Suc del: upt_Suc)
qed

lemma loop_Some_stops:
  assumes "list_all_pull_requests_loop self b off acc s = Some y"
  shows "\<exists>k. \<not> nonempty_page (page self b off s k)"
proof (rule list_all_pull_requests_loop.raw_induct
         [where P = "\<lambda>self b off acc s y. \<exists>k. \<not> nonempty_page (page self b off s k)",
          OF _ assms], goal_cases)
  case (1 loop self b off acc s y)
  show ?case
  proof (cases "nonempty_page (fst (fetch_page self b off s))")
    case False
    then have "\<not> nonempty_page (page self b off s 0)" by simp
    then show ?thesis by blast
  next
    case True
    then have "loop self b (off + 100) (acc @ page_items (fst (fetch_page self b off s)))
                 (snd (fetch_page self b off s)) = Some y"
      using 1(2)
      by (auto simp: fetch_page_def nonempty_page_def page_items_def
               split: prod.splits sum.splits if_splits)
    from 1(1) [OF this] obtain k where
      "\<not> nonempty_page (page self b (off + 100) (snd (fetch_page self b off s)) k)" by blast
    then have "\<not> nonempty_page (page self b off s (Suc k))" by simp
    then show ?thesis by blast
  qed
qed

lemma loop_diverges:
  "(\<And>k. nonempty_page (page self b off s k)) \<Longrightarrow>
     list_all_pull_requests_loop self b off acc s = None"
  using loop_Some_stops [of self b off acc s] by (cases "list_all_pull_requests_loop self b off acc s") auto


lemma fake_fetch_page:
  "fetch_page (fake_client ctx url script) b off (k, log) =
     (served (script k), (Suc k, log @ [GET (list_request_url (fake_client ctx url script) b off)]))"
  by (cases "script k")
     (simp_all add: fetch_page_def fake_client_def fake_http_client_def split: sum.splits)

lemma fake_page:
  "page (fake_client ctx url script) b off (k, log) j = served (script (k + j))"
  by (induction j arbitrary: off k log) (simp_all add: fake_fetch_page)

lemma fake_state_after:
  "state_after (fake_client ctx url script) b off (k, log) j =
     (k + j, log @ map (\<lambda>i. GET (list_request_url (fake_client ctx url script) b
                                     (off + 100 * int i))) [0..<j])"
proof (induction j arbitrary: off k log)
  case 0
  show ?case by simp
next
  case (Suc j)
  have eq: "\<And>i. off + 100 + 100 * int i = off + 100 * int (Suc i)" by simp
  show ?case
    by (simp add: fake_fetch_page Suc.IH map_upt_Suc eq del: upt_Suc of_nat_Suc)
qed

lemma fake_run:
  assumes "\<And>j. j < n \<Longrightarrow> nonempty_page (served (script j))"
      and "\<not> nonempty_page (served (script n))"
  shows "list_all_pull_requests_loop (fake_client ctx url script) b 0 [] (0, []) =
     Some (stop_result (served (script n))
             (concat (map (\<lambda>j. page_items (served (script j))) [0..<n])),
           (Suc n, map (\<lambda>i. GET (list_request_url (fake_client ctx url script) b (100 * int i)))
                     [0..<Suc n]))"
proof -
  let ?c = "fake_client ctx url script"
  have 1: "\<And>j. j < n \<Longrightarrow> nonempty_page (page ?c b 0 (0, []) j)"
    using assms(1) by (simp add: fake_page)
  have 2: "\<not> nonempty_page (page ?c b 0 (0, []) n)"
    using assms(2) by (simp add: fake_page)
  have "list_all_pull_requests_loop ?c b 0 [] (0, []) =
     Some (stop_result (page ?c b 0 (0, []) n)
             ([] @ concat (map (\<lambda>j. page_items (page ?c b 0 (0, []) j)) [0..<n])),
           state_after ?c b 0 (0, []) (Suc n))"
    by (rule loop_stops [OF 1 2])
  then show ?thesis
    by (simp add: fake_page fake_state_after del: upt_Suc state_after.simps)
qed

lemma list_request_url_eq:
  "list_request_url self b off =
     base_url (http_client self) @ ''/git/repositories/'' @ repository_id (p_context self)
       @ ''/pullRequests?$top=100&$skip='' @ py_str off
       @ (case b of None \<Rightarrow> [] | Some n \<Rightarrow> ''&sourceRefName='' @ canonicalize_branch_name n)
       @ ''&api-version=3.0-preview''"
  by (simp add: list_request_url_def split: option.splits)

lemma py_str_values:
  "py_str 0 = ''0''" "py_str 100 = ''100''" "py_str 200 = ''200''" "py_str 300 = ''300''"
  by (simp_all add: py_str_def str_nat.simps)

lemma length_py_iter: "py_len x = Inr n \<Longrightarrow> length (py_iter x) = n"
  by (cases x) auto

lemma upt_0_3: "[0..<3] = [0, 1, 2]"
  by (simp add: numeral_3_eq_3)

lemma upt_0_4: "[0..<Suc 3] = [0, 1, 2, 3]"
  by (simp add: numeral_3_eq_3)

lemma less_3_cases: "j < (3::nat) \<Longrightarrow> j = 0 \<or> j = 1 \<or> j = 2"
  by arith

section \<open>Listing all pull requests\<close>

text \<open>
  C1. Against a server whose first four answers are pages of 100, 100, 37 and 0 items, the
  listing returns the three non-empty pages one after the other, 237 items; it makes
  exactly four requests, and their \<open>$skip\<close> values are 0, 100, 200 and 300, in this order.
\<close>

theorem list_all_pull_requests_237:
  assumes p0: "served (script 0) = Inr p0" "py_len p0 = Inr 100"
      and p1: "served (script 1) = Inr p1" "py_len p1 = Inr 100"
      and p2: "served (script 2) = Inr p2" "py_len p2 = Inr 37"
      and p3: "served (script 3) = Inr p3" "py_len p3 = Inr 0"
  shows "(let pre = url @ ''/git/repositories/'' @ repository_id ctx
                      @ ''/pullRequests?$top=100&$skip='';
              post = (case bind_kwarg None branch_name_arg of
                        None \<Rightarrow> ''''
                      | Some b \<Rightarrow> ''&sourceRefName='' @ canonicalize_branch_name b)
                      @ ''&api-version=3.0-preview''
          in list_all_pull_requests (fake_client ctx url script) branch_name_arg (0, []) =
               Some (Inr (py_iter p0 @ py_iter p1 @ py_iter p2),
                     (4, [GET (pre @ ''0'' @ post), GET (pre @ ''100'' @ post),
                          GET (pre @ ''200'' @ post), GET (pre @ ''300'' @ post)])))
         \<and> length (py_iter p0 @ py_iter p1 @ py_iter p2) = 237"
proof -
  have ne: "\<And>j. j < 3 \<Longrightarrow> nonempty_page (served (script j))"
    using p0 p1 p2 by (auto dest!: less_3_cases simp: nonempty_page_def)
  have stop: "\<not> nonempty_page (served (script 3))"
    using p3 by (simp add: nonempty_page_def)
  have run: "list_all_pull_requests (fake_client ctx url script) branch_name_arg (0, []) =
     Some (Inr (py_iter p0 @ py_iter p1 @ py_iter p2),
           (4, map (\<lambda>i. GET (list_request_url (fake_client ctx url script)
                               (bind_kwarg None branch_name_arg) (100 * int i)))
                 [0, 1, 2, 3]))"
    using fake_run [where script = script and n = 3 and ctx = ctx and url = url
                      and b = "bind_kwarg None branch_name_arg", OF ne stop]
    unfolding list_all_pull_requests_def upt_0_3 upt_0_4
    using p0 p1 p2 p3 by (simp add: stop_result_def page_items_def)
  show ?thesis
    unfolding run Let_def
    by (simp add: length_py_iter [OF p0(2)] length_py_iter [OF p1(2)]
             length_py_iter [OF p2(2)] list_request_url_eq py_str_values fake_client_def fake_http_client_def
             split: option.splits)
qed


theorem list_all_pull_requests_237_witness:
  "list_all_pull_requests
     (fake_client \<lparr>username = ''u'', repository_id = ''repo'', status_context = ''c''\<rparr>
        ''https://ado/proj/_apis'' pages_100_100_37)
     Omitted (0, []) =
   Some (Inr (replicate 100 (JNum 0) @ replicate 100 (JNum 1) @ replicate 37 (JNum 2)),
         (4, [GET ''https://ado/proj/_apis/git/repositories/repo/pullRequests?$top=100&$skip=0&api-version=3.0-preview'',
              GET ''https://ado/proj/_apis/git/repositories/repo/pullRequests?$top=100&$skip=100&api-version=3.0-preview'',
              GET ''https://ado/proj/_apis/git/repositories/repo/pullRequests?$top=100&$skip=200&api-version=3.0-preview'',
              GET ''https://ado/proj/_apis/git/repositories/repo/pullRequests?$top=100&$skip=300&api-version=3.0-preview'']))"
  using list_all_pull_requests_237
    [of pages_100_100_37 "JArr (replicate 100 (JNum 0))" "JArr (replicate 100 (JNum 1))"
        "JArr (replicate 37 (JNum 2))" "JArr []" "''https://ado/proj/_apis''"
        "\<lparr>username = ''u'', repository_id = ''repo'', status_context = ''c''\<rparr>" Omitted]
  by (simp add: pages_100_100_37_def Let_def)

lemma page_fetch:
  "page self b off s k =
     fst (fetch_page self b (off + 100 * int k) (state_after self b off s k))"
proof (induction k arbitrary: off s)
  case 0
  show ?case by simp
next
  case (Suc k)
  have eq: "off + 100 + 100 * int k = off + 100 * int (Suc k)" by simp
  show ?case by (simp add: Suc.IH eq del: of_nat_Suc)
qed

lemma nonempty_not_empty: "nonempty_page r \<Longrightarrow> \<not> empty_page r"
  by (auto simp: nonempty_page_def empty_page_def split: sum.splits)

lemma empty_not_nonempty: "empty_page r \<Longrightarrow> \<not> nonempty_page r"
  by (auto simp: nonempty_page_def empty_page_def split: sum.splits)

lemma stop_result_empty: "empty_page r \<Longrightarrow> stop_result r acc = Inr acc"
  by (auto simp: stop_result_def empty_page_def split: sum.splits)

lemma stop_result_Inr:
  "\<not> nonempty_page r \<Longrightarrow> stop_result r acc = Inr prs \<Longrightarrow> empty_page r \<and> prs = acc"
  by (auto simp: stop_result_def empty_page_def nonempty_page_def split: sum.splits)

lemma stop_result_Inl: "stop_result (Inl e) acc = Inl e"
  by (simp add: stop_result_def)

text \<open>The first page that is not non-empty, when there is one.\<close>

lemma first_stop:
  assumes "\<not> nonempty_page (page self b off s k)"
  shows "\<exists>n. (\<forall>j<n. nonempty_page (page self b off s j))
             \<and> \<not> nonempty_page (page self b off s n)"
proof -
  let ?P = "\<lambda>k. \<not> nonempty_page (page self b off s k)"
  have "?P (LEAST k. ?P k)" using assms by (rule LeastI)
  moreover have "\<forall>j<LEAST k. ?P k. \<not> ?P j" using not_less_Least by blast
  ultimately show ?thesis by blast
qed

lemma loop_returns_Inr:
  assumes "list_all_pull_requests_loop self b off acc s = Some (Inr prs, s')"
  shows "\<exists>n. (\<forall>j<n. nonempty_page (page self b off s j)) \<and> empty_page (page self b off s n)
             \<and> prs = acc @ concat (map (\<lambda>j. page_items (page self b off s j)) [0..<n])
             \<and> s' = state_after self b off s (Suc n)"
proof -
  from loop_Some_stops [OF assms] obtain k where "\<not> nonempty_page (page self b off s k)" ..
  from first_stop [OF this] obtain n
    where all: "\<forall>j<n. nonempty_page (page self b off s j)"
      and st: "\<not> nonempty_page (page self b off s n)" by blast
  from all have ne: "\<And>j. j < n \<Longrightarrow> nonempty_page (page self b off s j)" by simp
  from loop_stops [OF ne st, of acc] assms
  have r: "stop_result (page self b off s n)
             (acc @ concat (map (\<lambda>j. page_items (page self b off s j)) [0..<n])) = Inr prs"
    and s: "s' = state_after self b off s (Suc n)" by simp_all
  from stop_result_Inr [OF st r] ne s show ?thesis by blast
qed

text \<open>
  C2. The loop ends with a result exactly at a page whose extracted value has no elements.
  If the pages before request \<open>n\<close> are non-empty and page \<open>n\<close> is empty, the listing returns
  the items of those pages, concatenated in the order of the requests; whenever it
  returns a result, there is such an \<open>n\<close>; and the number of pages has no bound on the
  client's side: if every page is non-empty, the listing never returns. So, when every
  request is answered with a page that is non-empty or empty, the listing terminates
  exactly when one of the pages is empty.
\<close>

theorem list_all_pull_requests_termination:
  "(let b = bind_kwarg None branch_name_arg in
     ((\<forall>j<n. nonempty_page (page self b 0 s j)) \<and> empty_page (page self b 0 s n) \<longrightarrow>
        list_all_pull_requests self branch_name_arg s =
          Some (Inr (concat (map (\<lambda>j. page_items (page self b 0 s j)) [0..<n])),
                state_after self b 0 s (Suc n)))
     \<and> (list_all_pull_requests self branch_name_arg s = Some (Inr prs, s') \<longrightarrow>
          (\<exists>m. (\<forall>j<m. nonempty_page (page self b 0 s j)) \<and> empty_page (page self b 0 s m)
               \<and> prs = concat (map (\<lambda>j. page_items (page self b 0 s j)) [0..<m])
               \<and> s' = state_after self b 0 s (Suc m)))
     \<and> ((\<forall>k. nonempty_page (page self b 0 s k)) \<longrightarrow>
          list_all_pull_requests self branch_name_arg s = None)
     \<and> ((\<forall>k. nonempty_page (page self b 0 s k) \<or> empty_page (page self b 0 s k)) \<longrightarrow>
          (list_all_pull_requests self branch_name_arg s \<noteq> None
             \<longleftrightarrow> (\<exists>k. empty_page (page self b 0 s k)))))"
proof -
  define b where "b = bind_kwarg None branch_name_arg"
  have 1: "list_all_pull_requests_loop self b 0 [] s =
        Some (Inr (concat (map (\<lambda>j. page_items (page self b 0 s j)) [0..<n])),
              state_after self b 0 s (Suc n))"
    if a: "(\<forall>j<n. nonempty_page (page self b 0 s j)) \<and> empty_page (page self b 0 s n)"
  proof -
    from a have ne: "\<And>j. j < n \<Longrightarrow> nonempty_page (page self b 0 s j)"
      and st: "\<not> nonempty_page (page self b 0 s n)"
      by (simp_all add: empty_not_nonempty)
    from loop_stops [OF ne st, of "[]"] a show ?thesis
      by (simp add: stop_result_empty del: state_after.simps)
  qed
  have 2: "\<exists>m. (\<forall>j<m. nonempty_page (page self b 0 s j)) \<and> empty_page (page self b 0 s m)
             \<and> prs = concat (map (\<lambda>j. page_items (page self b 0 s j)) [0..<m])
             \<and> s' = state_after self b 0 s (Suc m)"
    if "list_all_pull_requests_loop self b 0 [] s = Some (Inr prs, s')"
    using loop_returns_Inr [OF that] by simp
  have 3: "list_all_pull_requests_loop self b 0 [] s = None"
    if "\<forall>k. nonempty_page (page self b 0 s k)"
    using that by (intro loop_diverges) simp
  have 4: "list_all_pull_requests_loop self b 0 [] s \<noteq> None
             \<longleftrightarrow> (\<exists>k. empty_page (page self b 0 s k))"
    if sized: "\<forall>k. nonempty_page (page self b 0 s k) \<or> empty_page (page self b 0 s k)"
  proof
    assume "list_all_pull_requests_loop self b 0 [] s \<noteq> None"
    then obtain y where "list_all_pull_requests_loop self b 0 [] s = Some y" by blast
    from loop_Some_stops [OF this] sized show "\<exists>k. empty_page (page self b 0 s k)" by blast
  next
    assume "\<exists>k. empty_page (page self b 0 s k)"
    then obtain k where "\<not> nonempty_page (page self b 0 s k)"
      using empty_not_nonempty by blast
    from first_stop [OF this] obtain m
      where ne: "\<forall>j<m. nonempty_page (page self b 0 s j)"
        and st: "\<not> nonempty_page (page self b 0 s m)" by blast
    from ne have ne': "\<And>j. j < m \<Longrightarrow> nonempty_page (page self b 0 s j)" by simp
    from loop_stops [OF ne' st, of "[]"]
    show "list_all_pull_requests_loop self b 0 [] s \<noteq> None" by simp
  qed
  from 1 2 3 4 show ?thesis
    unfolding list_all_pull_requests_def Let_def b_def by blast
qed

theorem list_all_pull_requests_termination_witness:
  "list_all_pull_requests (fake_client test_context ''https://ado'' pages_2_1) Omitted (0, [])
     = Some (Inr [JNum 1, JNum 2, JNum 3],
             (3, [GET ''https://ado/git/repositories/repo/pullRequests?$top=100&$skip=0&api-version=3.0-preview'',
                  GET ''https://ado/git/repositories/repo/pullRequests?$top=100&$skip=100&api-version=3.0-preview'',
                  GET ''https://ado/git/repositories/repo/pullRequests?$top=100&$skip=200&api-version=3.0-preview'']))
   \<and> list_all_pull_requests (fake_client test_context ''https://ado'' endless_pages) Omitted (0, [])
     = None
   \<and> (\<exists>k. empty_page
              (page (fake_client test_context ''https://ado'' pages_2_1) None 0 (0, []) k))"
proof -
  let ?c = "fake_client test_context ''https://ado'' pages_2_1"
  let ?d = "fake_client test_context ''https://ado'' endless_pages"
  have h1: "(\<forall>j<2. nonempty_page (page ?c None 0 (0, []) j)) \<and> empty_page (page ?c None 0 (0, []) 2)"
    by (simp add: fake_page pages_2_1_def nonempty_page_def empty_page_def)
  have h2: "\<forall>k. nonempty_page (page ?d None 0 (0, []) k)"
    by (simp add: fake_page endless_pages_def nonempty_page_def)
  have u: "[0..<2] = [0, 1]" "[0..<Suc 2] = [0, 1, 2]"
    by (simp_all add: numeral_2_eq_2)
  from list_all_pull_requests_termination [of Omitted 2 ?c "(0, [])"] h1
  have "list_all_pull_requests ?c Omitted (0, []) =
          Some (Inr (concat (map (\<lambda>j. page_items (page ?c None 0 (0, []) j)) [0..<2])),
                state_after ?c None 0 (0, []) (Suc 2))"
    by (simp add: Let_def del: state_after.simps)
  then have a: "list_all_pull_requests ?c Omitted (0, []) =
     Some (Inr [JNum 1, JNum 2, JNum 3],
             (3, [GET ''https://ado/git/repositories/repo/pullRequests?$top=100&$skip=0&api-version=3.0-preview'',
                  GET ''https://ado/git/repositories/repo/pullRequests?$top=100&$skip=100&api-version=3.0-preview'',
                  GET ''https://ado/git/repositories/repo/pullRequests?$top=100&$skip=200&api-version=3.0-preview'']))"
    unfolding fake_page fake_state_after u
    by (simp add: pages_2_1_def page_items_def list_request_url_eq py_str_values
          fake_client_def fake_http_client_def test_context_def)
  from list_all_pull_requests_termination [of Omitted _ ?d "(0, [])"] h2
  have b: "list_all_pull_requests ?d Omitted (0, []) = None"
    by (simp add: Let_def)
  have h3: "\<forall>k. nonempty_page (page ?c None 0 (0, []) k) \<or> empty_page (page ?c None 0 (0, []) k)"
    unfolding fake_page by (simp add: pages_2_1_def nonempty_page_def empty_page_def)
  from list_all_pull_requests_termination [of Omitted _ ?c "(0, [])"] h3 a
  have c: "\<exists>k. empty_page (page ?c None 0 (0, []) k)"
    unfolding Let_def bind_kwarg.simps by simp
  from a b c show ?thesis by simp
qed

lemma fake_get:
  "get (http_client (fake_client ctx url script)) u (k, log) =
     (script k, (Suc k, log @ [GET u]))"
  by (simp add: fake_client_def fake_http_client_def)

lemma fake_decode:
  "decode_response (http_client (fake_client ctx url script)) = fake_decode_response"
  by (simp add: fake_client_def fake_http_client_def)

lemma fetch_page_get_raises:
  "get (http_client self) (list_request_url self b off) s = (Inl e, s') \<Longrightarrow>
     fetch_page self b off s = (Inl e, s')"
  by (simp add: fetch_page_def)

lemma fetch_page_decode_raises:
  "get (http_client self) (list_request_url self b off) s = (Inr r, s') \<Longrightarrow>
   decode_response (http_client self) r = Inl e \<Longrightarrow>
     fetch_page self b off s = (Inl e, s')"
  by (simp add: fetch_page_def)

lemma loop_fails:
  assumes ne: "\<forall>j<n. nonempty_page (page self b 0 s j)"
      and f: "fst (fetch_page self b (100 * int n) (state_after self b 0 s n)) = Inl e"
  shows "\<exists>s'. list_all_pull_requests_loop self b 0 [] s = Some (Inl e, s')"
proof -
  from f have p: "page self b 0 s n = Inl e" by (simp add: page_fetch)
  then have st: "\<not> nonempty_page (page self b 0 s n)" by (simp add: nonempty_page_def)
  from ne have ne': "\<And>j. j < n \<Longrightarrow> nonempty_page (page self b 0 s j)" by simp
  from loop_stops [OF ne' st, of "[]"] p show ?thesis
    by (simp add: stop_result_Inl del: state_after.simps)
qed

text \<open>
  C3. If a page request fails, the get raising or the decoding of its response raising,
  after any number of non-empty pages, the whole listing ends with that exception: the
  items collected so far are not returned. A list is returned only when the empty page
  that ends the loop has been reached, and it is then the whole concatenation.
\<close>

theorem list_all_pull_requests_failure:
  "(let b = bind_kwarg None branch_name_arg;
        hc = http_client self;
        s\<^sub>n = state_after self b 0 s n;
        u = list_request_url self b (100 * int n)
    in ((\<forall>j<n. nonempty_page (page self b 0 s j))
          \<and> ((\<exists>s'. get hc u s\<^sub>n = (Inl e, s'))
               \<or> (\<exists>r s'. get hc u s\<^sub>n = (Inr r, s') \<and> decode_response hc r = Inl e))
        \<longrightarrow> (\<exists>s'. list_all_pull_requests self branch_name_arg s = Some (Inl e, s')))
     \<and> (list_all_pull_requests self branch_name_arg s = Some (Inr prs, t) \<longrightarrow>
          (\<exists>m. (\<forall>j<m. nonempty_page (page self b 0 s j)) \<and> empty_page (page self b 0 s m)
               \<and> prs = concat (map (\<lambda>j. page_items (page self b 0 s j)) [0..<m]))))"
proof -
  define b where "b = bind_kwarg None branch_name_arg"
  define s\<^sub>n where "s\<^sub>n = state_after self b 0 s n"
  define u where "u = list_request_url self b (100 * int n)"
  have 1: "\<exists>s'. list_all_pull_requests_loop self b 0 [] s = Some (Inl e, s')"
    if ne: "\<forall>j<n. nonempty_page (page self b 0 s j)"
      and f: "(\<exists>s'. get (http_client self) u s\<^sub>n = (Inl e, s'))
               \<or> (\<exists>r s'. get (http_client self) u s\<^sub>n = (Inr r, s')
                      \<and> decode_response (http_client self) r = Inl e)"
  proof -
    from f have "fst (fetch_page self b (100 * int n) s\<^sub>n) = Inl e"
      unfolding u_def
      by (auto simp: fetch_page_get_raises fetch_page_decode_raises)
    then show ?thesis
      unfolding s\<^sub>n_def by (rule loop_fails [OF ne])
  qed
  have 2: "\<exists>m. (\<forall>j<m. nonempty_page (page self b 0 s j)) \<and> empty_page (page self b 0 s m)
             \<and> prs = concat (map (\<lambda>j. page_items (page self b 0 s j)) [0..<m])"
    if "list_all_pull_requests_loop self b 0 [] s = Some (Inr prs, t)"
    using loop_returns_Inr [OF that] by auto
  from 1 2 show ?thesis
    unfolding list_all_pull_requests_def Let_def b_def s\<^sub>n_def u_def by blast
qed

theorem list_all_pull_requests_failure_witness:
  "(\<exists>t. list_all_pull_requests
            (fake_client test_context ''https://ado'' page_then_http_failure)
            Omitted (0, [])
          = Some (Inl (ADOException (HttpFailure ''timed out'')), t))
   \<and> (\<exists>t. list_all_pull_requests
            (fake_client test_context ''https://ado'' page_then_undecodable)
            Omitted (0, [])
          = Some (Inl (ADOException (DecodeFailure ''not JSON'')), t))"
proof -
  let ?c = "fake_client test_context ''https://ado'' page_then_http_failure"
  let ?d = "fake_client test_context ''https://ado'' page_then_undecodable"
  have c1: "\<forall>j<1. nonempty_page (page ?c None 0 (0, []) j)"
    unfolding fake_page by (simp add: page_then_http_failure_def nonempty_page_def)
  have c2: "\<exists>s'. get (http_client ?c) (list_request_url ?c None (100 * int 1))
                    (state_after ?c None 0 (0, []) 1)
                  = (Inl (ADOException (HttpFailure ''timed out'')), s')"
    unfolding fake_state_after fake_get by (simp add: page_then_http_failure_def)
  have d1: "\<forall>j<1. nonempty_page (page ?d None 0 (0, []) j)"
    unfolding fake_page by (simp add: page_then_undecodable_def nonempty_page_def)
  have d2: "\<exists>r s'. get (http_client ?d) (list_request_url ?d None (100 * int 1))
                    (state_after ?d None 0 (0, []) 1) = (Inr r, s')
                  \<and> decode_response (http_client ?d) r
                      = Inl (ADOException (DecodeFailure ''not JSON''))"
    unfolding fake_state_after fake_get fake_decode by (simp add: page_then_undecodable_def)
  from list_all_pull_requests_failure
         [where branch_name_arg = Omitted and n = 1 and self = ?c and s = "(0, [])"
            and e = "ADOException (HttpFailure ''timed out'')"] c1 c2
  have a: "\<exists>t. list_all_pull_requests ?c Omitted (0, [])
                 = Some (Inl (ADOException (HttpFailure ''timed out'')), t)"
    unfolding Let_def bind_kwarg.simps by blast
  from list_all_pull_requests_failure
         [where branch_name_arg = Omitted and n = 1 and self = ?d and s = "(0, [])"
            and e = "ADOException (DecodeFailure ''not JSON'')"] d1 d2
  have b: "\<exists>t. list_all_pull_requests ?d Omitted (0, [])
                 = Some (Inl (ADOException (DecodeFailure ''not JSON'')), t)"
    unfolding Let_def bind_kwarg.simps by blast
  from a b show ?thesis by blast
qed

lemma fake_run_log:
  assumes "\<forall>j<n. nonempty_page (served (script j))"
      and "\<not> nonempty_page (served (script n))"
  shows "\<exists>r. list_all_pull_requests (fake_client ctx url script) branch_name_arg (0, []) =
     Some (r, (Suc n, map (\<lambda>i. GET (list_request_url (fake_client ctx url script)
                                      (bind_kwarg None branch_name_arg) (100 * int i)))
                     [0..<Suc n]))"
proof -
  from assms(1) have ne: "\<And>j. j < n \<Longrightarrow> nonempty_page (served (script j))" by simp
  show ?thesis
    unfolding list_all_pull_requests_def
    using fake_run [where script = script and n = n, OF ne assms(2)] by blast
qed

lemma fake_base_url: "base_url (http_client (fake_client ctx url script)) = url"
  by (simp add: fake_client_def fake_http_client_def)

lemma fake_context: "p_context (fake_client ctx url script) = ctx"
  by (simp add: fake_client_def)

text \<open>
  C8. The requests of a listing that comes to an end, as the fake server received them:
  with a branch name, each one carries \<open>sourceRefName\<close> with the canonicalized name; with
  none (left out, or \<open>None\<close>), no request has a \<open>sourceRefName\<close> parameter; in both cases
  every request asks for pages of 100 with \<open>$top=100\<close>.
\<close>

theorem list_all_pull_requests_query:
  "(\<forall>j<n. nonempty_page (served (script j))) \<and> \<not> nonempty_page (served (script n)) \<longrightarrow>
     (\<exists>r. list_all_pull_requests (fake_client ctx url script) (Passed (Some name)) (0, []) =
        Some (r, (Suc n,
          map (\<lambda>i. GET (url @ ''/git/repositories/'' @ repository_id ctx
                          @ ''/pullRequests?$top=100&$skip='' @ py_str (100 * int i)
                          @ ''&sourceRefName='' @ canonicalize_branch_name name
                          @ ''&api-version=3.0-preview''))
            [0..<Suc n])))
   \<and> (\<exists>r. list_all_pull_requests (fake_client ctx url script) (Passed None) (0, []) =
        Some (r, (Suc n,
          map (\<lambda>i. GET (url @ ''/git/repositories/'' @ repository_id ctx
                          @ ''/pullRequests?$top=100&$skip='' @ py_str (100 * int i)
                          @ ''&api-version=3.0-preview''))
            [0..<Suc n])))
   \<and> (\<exists>r. list_all_pull_requests (fake_client ctx url script) Omitted (0, []) =
        Some (r, (Suc n,
          map (\<lambda>i. GET (url @ ''/git/repositories/'' @ repository_id ctx
                          @ ''/pullRequests?$top=100&$skip='' @ py_str (100 * int i)
                          @ ''&api-version=3.0-preview''))
            [0..<Suc n])))"
proof (intro impI conjI)
  assume h: "(\<forall>j<n. nonempty_page (served (script j))) \<and> \<not> nonempty_page (served (script n))"
  then have ne: "\<forall>j<n. nonempty_page (served (script j))"
    and st: "\<not> nonempty_page (served (script n))" by simp_all
  from fake_run_log [OF ne st, of ctx url "Passed (Some name)"]
  show "\<exists>r. list_all_pull_requests (fake_client ctx url script) (Passed (Some name)) (0, []) =
        Some (r, (Suc n,
          map (\<lambda>i. GET (url @ ''/git/repositories/'' @ repository_id ctx
                          @ ''/pullRequests?$top=100&$skip='' @ py_str (100 * int i)
                          @ ''&sourceRefName='' @ canonicalize_branch_name name
                          @ ''&api-version=3.0-preview''))
            [0..<Suc n]))"
    by (simp add: list_request_url_eq fake_base_url fake_context del: upt_Suc)
  from fake_run_log [OF ne st, of ctx url "Passed None"]
  show "\<exists>r. list_all_pull_requests (fake_client ctx url script) (Passed None) (0, []) =
        Some (r, (Suc n,
          map (\<lambda>i. GET (url @ ''/git/repositories/'' @ repository_id ctx
                          @ ''/pullRequests?$top=100&$skip='' @ py_str (100 * int i)
                          @ ''&api-version=3.0-preview''))
            [0..<Suc n]))"
    by (simp add: list_request_url_eq fake_base_url fake_context del: upt_Suc)
  from fake_run_log [OF ne st, of ctx url Omitted]
  show "\<exists>r. list_all_pull_requests (fake_client ctx url script) Omitted (0, []) =
        Some (r, (Suc n,
          map (\<lambda>i. GET (url @ ''/git/repositories/'' @ repository_id ctx
                          @ ''/pullRequests?$top=100&$skip='' @ py_str (100 * int i)
                          @ ''&api-version=3.0-preview''))
            [0..<Suc n]))"
    by (simp add: list_request_url_eq fake_base_url fake_context del: upt_Suc)
qed

theorem list_all_pull_requests_query_witness:
  "(\<exists>r. list_all_pull_requests (fake_client test_context ''https://ado'' pages_2_1)
           (Passed (Some ''main'')) (0, []) =
      Some (r, (3,
        [GET ''https://ado/git/repositories/repo/pullRequests?$top=100&$skip=0&sourceRefName=refs/heads/main&api-version=3.0-preview'',
         GET ''https://ado/git/repositories/repo/pullRequests?$top=100&$skip=100&sourceRefName=refs/heads/main&api-version=3.0-preview'',
         GET ''https://ado/git/repositories/repo/pullRequests?$top=100&$skip=200&sourceRefName=refs/heads/main&api-version=3.0-preview''])))
   \<and> (\<exists>r. list_all_pull_requests (fake_client test_context ''https://ado'' pages_2_1)
           Omitted (0, []) =
      Some (r, (3,
        [GET ''https://ado/git/repositories/repo/pullRequests?$top=100&$skip=0&api-version=3.0-preview'',
         GET ''https://ado/git/repositories/repo/pullRequests?$top=100&$skip=100&api-version=3.0-preview'',
         GET ''https://ado/git/repositories/repo/pullRequests?$top=100&$skip=200&api-version=3.0-preview''])))"
proof -
  have h: "(\<forall>j<2. nonempty_page (served (pages_2_1 j))) \<and> \<not> nonempty_page (served (pages_2_1 2))"
    by (simp add: pages_2_1_def nonempty_page_def)
  have u: "[0..<Suc 2] = [0, 1, 2]"
    by (simp add: numeral_2_eq_2)
  from list_all_pull_requests_query
         [where n = 2 and script = pages_2_1 and ctx = test_context and url = "''https://ado''"
            and name = "''main''"] h
  show ?thesis
    unfolding u
    by (simp add: py_str_values canonicalize_branch_name_def test_context_def)
qed

text \<open>
  C9. The offset goes up by exactly 100 after every non-empty page, whatever the number
  of items in it. For every client: after \<open>k\<close> non-empty pages the listing continues as
  the loop at offset \<open>100 * k\<close>, with the items of those pages. For the fake server: the
  requests of a listing that ends at request \<open>k\<close> have the \<open>$skip\<close> values 0, 100, \<dots>,
  \<open>100 * k\<close>. The hypotheses only say that the pages are non-empty. Against the capped
  server the listing therefore jumps over the items between two pages.
\<close>

theorem list_all_pull_requests_skip_by_100:
  "(let b = bind_kwarg None branch_name_arg in
      (\<forall>j<k. nonempty_page (page self b 0 s j)) \<longrightarrow>
        list_all_pull_requests self branch_name_arg s =
          list_all_pull_requests_loop self b (100 * int k)
            (concat (map (\<lambda>j. page_items (page self b 0 s j)) [0..<k]))
            (state_after self b 0 s k))
   \<and> (let pre = url @ ''/git/repositories/'' @ repository_id ctx
                    @ ''/pullRequests?$top=100&$skip='';
            post = (case bind_kwarg None branch_name_arg of
                      None \<Rightarrow> []
                    | Some b \<Rightarrow> ''&sourceRefName='' @ canonicalize_branch_name b)
                    @ ''&api-version=3.0-preview''
        in (\<forall>j<k. nonempty_page (served (script j))) \<and> \<not> nonempty_page (served (script k)) \<longrightarrow>
             (\<exists>r. list_all_pull_requests (fake_client ctx url script) branch_name_arg (0, []) =
                Some (r, (Suc k, map (\<lambda>i. GET (pre @ py_str (100 * int i) @ post)) [0..<Suc k]))))"
proof -
  define b where "b = bind_kwarg None branch_name_arg"
  have 1: "list_all_pull_requests_loop self b 0 [] s =
          list_all_pull_requests_loop self b (100 * int k)
            (concat (map (\<lambda>j. page_items (page self b 0 s j)) [0..<k]))
            (state_after self b 0 s k)"
    if "\<forall>j<k. nonempty_page (page self b 0 s j)"
    using loop_unroll [of k self b 0 s "[]"] that by simp
  have 2: "\<exists>r. list_all_pull_requests (fake_client ctx url script) branch_name_arg (0, []) =
        Some (r, (Suc k,
          map (\<lambda>i. GET ((url @ ''/git/repositories/'' @ repository_id ctx
                           @ ''/pullRequests?$top=100&$skip='') @ py_str (100 * int i)
                          @ (case b of None \<Rightarrow> []
                             | Some b \<Rightarrow> ''&sourceRefName='' @ canonicalize_branch_name b)
                          @ ''&api-version=3.0-preview''))
            [0..<Suc k]))"
    if "\<forall>j<k. nonempty_page (served (script j))" "\<not> nonempty_page (served (script k))"
    using fake_run_log [OF that, of ctx url branch_name_arg]
    by (simp add: list_request_url_eq fake_base_url fake_context b_def del: upt_Suc)
  from 1 2 show ?thesis
    unfolding Let_def list_all_pull_requests_def b_def by simp
qed

lemma less_2_cases: "j < (2::nat) \<Longrightarrow> j = 0 \<or> j = 1"
  by arith

theorem list_all_pull_requests_skip_by_100_witness:
  "list_all_pull_requests capped_client Omitted [] =
     Some (Inr [JNum 0, JNum 1, JNum 100, JNum 101],
       [GET ''https://ado/git/repositories/repo/pullRequests?$top=100&$skip=0&api-version=3.0-preview'',
        GET ''https://ado/git/repositories/repo/pullRequests?$top=100&$skip=100&api-version=3.0-preview'',
        GET ''https://ado/git/repositories/repo/pullRequests?$top=100&$skip=200&api-version=3.0-preview''])
   \<and> (\<exists>r. list_all_pull_requests (fake_client test_context ''https://ado'' pages_2_1)
             Omitted (0, []) =
        Some (r, (3,
         [GET ''https://ado/git/repositories/repo/pullRequests?$top=100&$skip=0&api-version=3.0-preview'',
          GET ''https://ado/git/repositories/repo/pullRequests?$top=100&$skip=100&api-version=3.0-preview'',
          GET ''https://ado/git/repositories/repo/pullRequests?$top=100&$skip=200&api-version=3.0-preview''])))"
proof -
  have p0: "nonempty_page (page capped_client None 0 [] 0)" by code_simp
  have p1: "nonempty_page (page capped_client None 0 [] 1)" by code_simp
  have c: "\<forall>j<2. nonempty_page (page capped_client None 0 [] j)"
    using p0 p1 by (auto dest!: less_2_cases)
  have rest: "list_all_pull_requests_loop capped_client None (100 * int 2)
         (concat (map (\<lambda>j. page_items (page capped_client None 0 [] j)) [0..<2]))
         (state_after capped_client None 0 [] 2) =
     Some (Inr [JNum 0, JNum 1, JNum 100, JNum 101],
       [GET ''https://ado/git/repositories/repo/pullRequests?$top=100&$skip=0&api-version=3.0-preview'',
        GET ''https://ado/git/repositories/repo/pullRequests?$top=100&$skip=100&api-version=3.0-preview'',
        GET ''https://ado/git/repositories/repo/pullRequests?$top=100&$skip=200&api-version=3.0-preview''])"
    by code_simp
  have f: "(\<forall>j<2. nonempty_page (served (pages_2_1 j))) \<and> \<not> nonempty_page (served (pages_2_1 2))"
    by (simp add: pages_2_1_def nonempty_page_def)
  have u: "[0..<Suc 2] = [0, 1, 2]"
    by (simp add: numeral_2_eq_2)
  note inst = list_all_pull_requests_skip_by_100
         [where branch_name_arg = Omitted and k = 2 and self = capped_client and s = "[]"
            and script = pages_2_1 and ctx = test_context and url = "''https://ado''"]
  from inst c have a: "list_all_pull_requests capped_client Omitted [] =
          list_all_pull_requests_loop capped_client None (100 * int 2)
            (concat (map (\<lambda>j. page_items (page capped_client None 0 [] j)) [0..<2]))
            (state_after capped_client None 0 [] 2)"
    unfolding Let_def bind_kwarg.simps by blast
  from inst f have b: "\<exists>r. list_all_pull_requests (fake_client test_context ''https://ado'' pages_2_1)
             Omitted (0, []) =
        Some (r, (3,
         [GET ''https://ado/git/repositories/repo/pullRequests?$top=100&$skip=0&api-version=3.0-preview'',
          GET ''https://ado/git/repositories/repo/pullRequests?$top=100&$skip=100&api-version=3.0-preview'',
          GET ''https://ado/git/repositories/repo/pullRequests?$top=100&$skip=200&api-version=3.0-preview'']))"
    unfolding u Let_def
    by (simp add: py_str_values test_context_def)
  from a rest b show ?thesis by simp
qed

section \<open>Creating a pull request\<close>

lemma fake_create_pull_request:
  "create_pull_request (fake_client ctx url script) source target title_arg description_arg
       reviewer_ids_arg (k, log) =
     (served (script k),
      (Suc k, log @ [POST (url @ ''/git/repositories/'' @ repository_id ctx
                             @ ''/pullRequests?api-version=5.1'')
                       (JObj (create_pull_request_body source target
                                (bind_kwarg None title_arg) (bind_kwarg None description_arg)
                                (bind_kwarg None reviewer_ids_arg)))]))"
  by (cases "script k")
     (simp_all add: create_pull_request_def fake_client_def fake_http_client_def)

lemma body_without_reviewers:
  "create_pull_request_body source target title description (Some []) =
     create_pull_request_body source target title description None"
  by (simp add: create_pull_request_body_def Let_def)

lemma body_with_reviewers:
  "create_pull_request_body source target title description (Some (x # xs)) =
     create_pull_request_body source target title description None
       @ [(''reviewers'', JArr (map (\<lambda>reviewer_id. JObj [(''id'', JStr reviewer_id)]) (x # xs)))]"
  by (cases title; cases description) (simp_all add: create_pull_request_body_def Let_def)

text \<open>
  C4. Called with the two branches only, \<open>create_pull_request\<close> posts a body with exactly
  the keys \<open>sourceRefName\<close> and \<open>targetRefName\<close>, holding the canonicalized names. With
  the reviewer ids \<open>a\<close> and \<open>b\<close> the body has, in addition, \<open>reviewers\<close> with the two
  objects of key \<open>id\<close>; with an empty list of reviewer ids it has no \<open>reviewers\<close> key. The
  last three parts say the same of the body for any title and description.
\<close>

theorem create_pull_request_request_body:
  "create_pull_request (fake_client ctx url script) source target Omitted Omitted Omitted (0, [])
     = (served (script 0),
        (1, [POST (url @ ''/git/repositories/'' @ repository_id ctx
                     @ ''/pullRequests?api-version=5.1'')
               (JObj [(''sourceRefName'', JStr (canonicalize_branch_name source)),
                      (''targetRefName'', JStr (canonicalize_branch_name target))])]))
   \<and> create_pull_request (fake_client ctx url script) source target Omitted Omitted
         (Passed (Some [''a'', ''b''])) (0, [])
     = (served (script 0),
        (1, [POST (url @ ''/git/repositories/'' @ repository_id ctx
                     @ ''/pullRequests?api-version=5.1'')
               (JObj [(''sourceRefName'', JStr (canonicalize_branch_name source)),
                      (''targetRefName'', JStr (canonicalize_branch_name target)),
                      (''reviewers'', JArr [JObj [(''id'', JStr ''a'')],
                                            JObj [(''id'', JStr ''b'')]])])]))
   \<and> create_pull_request (fake_client ctx url script) source target Omitted Omitted
         (Passed (Some [])) (0, [])
     = (served (script 0),
        (1, [POST (url @ ''/git/repositories/'' @ repository_id ctx
                     @ ''/pullRequests?api-version=5.1'')
               (JObj [(''sourceRefName'', JStr (canonicalize_branch_name source)),
                      (''targetRefName'', JStr (canonicalize_branch_name target))])]))
   \<and> create_pull_request_body source target title description (Some [''a'', ''b''])
     = create_pull_request_body source target title description None
         @ [(''reviewers'', JArr [JObj [(''id'', JStr ''a'')], JObj [(''id'', JStr ''b'')]])]
   \<and> create_pull_request_body source target title description (Some [])
     = create_pull_request_body source target title description None
   \<and> ''reviewers'' \<notin> fst ` set (create_pull_request_body source target title description None)"
proof -
  have none: "create_pull_request_body source target None None None =
     [(''sourceRefName'', JStr (canonicalize_branch_name source)),
      (''targetRefName'', JStr (canonicalize_branch_name target))]"
    by (simp add: create_pull_request_body_def Let_def)
  have nokey: "''reviewers'' \<notin> fst ` set (create_pull_request_body source target title description None)"
    by (cases title; cases description) (simp_all add: create_pull_request_body_def Let_def)
  show ?thesis
    unfolding fake_create_pull_request bind_kwarg.simps body_without_reviewers
      body_with_reviewers none
    using nokey by simp
qed

text \<open>
  C10. Passing \<open>None\<close> for the title or for the description is the same call as leaving
  the argument out, and the body then has no such key; passing a string puts the key in.
\<close>

theorem create_pull_request_none_is_omitted:
  "create_pull_request self source target (Passed None) description_arg reviewer_ids_arg s
     = create_pull_request self source target Omitted description_arg reviewer_ids_arg s
   \<and> create_pull_request self source target title_arg (Passed None) reviewer_ids_arg s
     = create_pull_request self source target title_arg Omitted reviewer_ids_arg s
   \<and> ''title'' \<notin> fst ` set (create_pull_request_body source target None description reviewer_ids)
   \<and> ''description'' \<notin> fst ` set (create_pull_request_body source target title None reviewer_ids)
   \<and> map_of (create_pull_request_body source target (Some t) description reviewer_ids) ''title''
       = Some (JStr t)
   \<and> map_of (create_pull_request_body source target title (Some d) reviewer_ids) ''description''
       = Some (JStr d)"
proof -
  have 1: "create_pull_request self source target (Passed None) description_arg reviewer_ids_arg s
     = create_pull_request self source target Omitted description_arg reviewer_ids_arg s"
    by (simp add: create_pull_request_def)
  have 2: "create_pull_request self source target title_arg (Passed None) reviewer_ids_arg s
     = create_pull_request self source target title_arg Omitted reviewer_ids_arg s"
    by (simp add: create_pull_request_def)
  have 3: "''title'' \<notin> fst ` set (create_pull_request_body source target None description reviewer_ids)"
    by (cases description; cases reviewer_ids)
       (simp_all add: create_pull_request_body_def Let_def)
  have 4: "''description'' \<notin> fst ` set (create_pull_request_body source target title None reviewer_ids)"
    by (cases title; cases reviewer_ids)
       (simp_all add: create_pull_request_body_def Let_def)
  have 5: "map_of (create_pull_request_body source target (Some t) description reviewer_ids) ''title''
       = Some (JStr t)"
    by (cases description; cases reviewer_ids)
       (simp_all add: create_pull_request_body_def Let_def)
  have 6: "map_of (create_pull_request_body source target title (Some d) reviewer_ids) ''description''
       = Some (JStr d)"
    by (cases title; cases reviewer_ids)
       (simp_all add: create_pull_request_body_def Let_def)
  from 1 2 3 4 5 6 show ?thesis by blast
qed

section \<open>Verifying access\<close>

lemma verify_access_not_ADOException:
  "fst (verify_access self s) \<noteq> Inl (ADOException a)"
  by (auto simp: verify_access_def except_ADOException_def Let_def
           split: prod.splits sum.splits py_exception.splits if_splits)

text \<open>
  C5, as amended. \<open>verify_access\<close> returns \<open>True\<close> when the get, the decoding and the
  extraction all complete. When one of them raises \<open>e\<close>, it returns \<open>False\<close> if \<open>e\<close> is an
  \<^verbatim>\<open>ADOException\<close> (a Decode- or an Http-failure), and otherwise \<open>e\<close> goes on to the
  caller. So it never propagates an \<^verbatim>\<open>ADOException\<close>.
\<close>

theorem verify_access_result:
  "(let hc = http_client self;
        u = base_url hc @ ''/git/repositories?api-version=1.0''
    in ((\<exists>r d v t. get hc u s = (Inr r, t) \<and> decode_response hc r = Inr d
                      \<and> extract_value hc d = Inr v)
          \<longrightarrow> fst (verify_access self s) = Inr True)
       \<and> ((\<exists>t. get hc u s = (Inl e, t))
            \<or> (\<exists>r t. get hc u s = (Inr r, t) \<and> decode_response hc r = Inl e)
            \<or> (\<exists>r d t. get hc u s = (Inr r, t) \<and> decode_response hc r = Inr d
                         \<and> extract_value hc d = Inl e)
          \<longrightarrow> fst (verify_access self s) = (if is_ADOException e then Inr False else Inl e)))
   \<and> fst (verify_access self s) \<noteq> Inl (ADOException a)"
proof -
  define hc where "hc = http_client self"
  define u where "u = base_url hc @ ''/git/repositories?api-version=1.0''"
  have 1: "fst (verify_access self s) = Inr True"
    if "\<exists>r d v t. get hc u s = (Inr r, t) \<and> decode_response hc r = Inr d
                      \<and> extract_value hc d = Inr v"
    using that unfolding hc_def u_def
    by (auto simp: verify_access_def Let_def)
  have 2: "fst (verify_access self s) = (if is_ADOException e then Inr False else Inl e)"
    if "(\<exists>t. get hc u s = (Inl e, t))
            \<or> (\<exists>r t. get hc u s = (Inr r, t) \<and> decode_response hc r = Inl e)
            \<or> (\<exists>r d t. get hc u s = (Inr r, t) \<and> decode_response hc r = Inr d
                         \<and> extract_value hc d = Inl e)"
    using that unfolding hc_def u_def
    by (auto simp: verify_access_def except_ADOException_def Let_def)
  from 1 2 verify_access_not_ADOException [of self s a] show ?thesis
    unfolding Let_def hc_def u_def by blast
qed

theorem verify_access_result_witness:
  "fst (verify_access (fake_client test_context ''https://ado'' pages_2_1) (0, [])) = Inr True
   \<and> fst (verify_access (fake_client test_context ''https://ado'' http_failure_script) (0, []))
       = Inr False
   \<and> fst (verify_access (fake_client test_context ''https://ado'' undecodable_script) (0, []))
       = Inr False"
proof -
  let ?u = "''https://ado/git/repositories?api-version=1.0''"
  have g: "\<exists>r d v t. get (http_client (fake_client test_context ''https://ado'' pages_2_1))
              (base_url (http_client (fake_client test_context ''https://ado'' pages_2_1))
                 @ ''/git/repositories?api-version=1.0'') (0, []) = (Inr r, t)
            \<and> decode_response (http_client (fake_client test_context ''https://ado'' pages_2_1)) r
                = Inr d
            \<and> extract_value (http_client (fake_client test_context ''https://ado'' pages_2_1)) d
                = Inr v"
    by (simp add: fake_client_def fake_http_client_def pages_2_1_def)
  have h: "\<exists>t. get (http_client (fake_client test_context ''https://ado'' http_failure_script))
              (base_url (http_client (fake_client test_context ''https://ado'' http_failure_script))
                 @ ''/git/repositories?api-version=1.0'') (0, [])
            = (Inl (ADOException (HttpFailure ''timed out'')), t)"
    by (simp add: fake_client_def fake_http_client_def http_failure_script_def)
  have d: "\<exists>r t. get (http_client (fake_client test_context ''https://ado'' undecodable_script))
              (base_url (http_client (fake_client test_context ''https://ado'' undecodable_script))
                 @ ''/git/repositories?api-version=1.0'') (0, []) = (Inr r, t)
            \<and> decode_response (http_client (fake_client test_context ''https://ado'' undecodable_script)) r
                = Inl (ADOException (DecodeFailure ''not JSON''))"
    by (simp add: fake_client_def fake_http_client_def undecodable_script_def)
  from verify_access_result
         [where self = "fake_client test_context ''https://ado'' pages_2_1" and s = "(0, [])"] g
  have 1: "fst (verify_access (fake_client test_context ''https://ado'' pages_2_1) (0, []))
             = Inr True"
    unfolding Let_def by blast
  from verify_access_result
         [where self = "fake_client test_context ''https://ado'' http_failure_script"
            and s = "(0, [])" and e = "ADOException (HttpFailure ''timed out'')"] h
  have 2: "fst (verify_access (fake_client test_context ''https://ado'' http_failure_script) (0, []))
             = Inr False"
    unfolding Let_def by simp
  from verify_access_result
         [where self = "fake_client test_context ''https://ado'' undecodable_script"
            and s = "(0, [])" and e = "ADOException (DecodeFailure ''not JSON'')"] d
  have 3: "fst (verify_access (fake_client test_context ''https://ado'' undecodable_script) (0, []))
             = Inr False"
    unfolding Let_def by simp
  from 1 2 3 show ?thesis by blast
qed

text \<open>
  C5 as it is stated does not hold: \<open>verify_access\<close> does propagate an exception, when the
  HTTP client raises one that is not an \<^verbatim>\<open>ADOException\<close>.
\<close>

theorem verify_access_propagates:
  "verify_access (fake_client test_context ''https://ado'' connection_error_script) (0, [])
     = (Inl (OtherException ''ConnectionError''),
        (1, [GET ''https://ado/git/repositories?api-version=1.0'']))"
  by (simp add: verify_access_def except_ADOException_def fake_client_def
        fake_http_client_def connection_error_script_def)

end
